theory Spec2Isabelle
  imports Main "HOL-Library.Signed_Division"
begin

section \<open>The debug pages of the sloop web server (pkg/sloop/webserver/debug.go)\<close>

text \<open>
  The three handlers that read the key-value store are embedded here:
  \<open>viewKeyHandler\<close>, \<open>listKeysHandler\<close> and \<open>histogramHandler\<close>. What lies outside the file
  is taken as a parameter: the regular-expression engine (\<open>regexp.Compile\<close>,
  \<open>MatchString\<close>), the key validators and the \<open>Get\<close> and
  \<open>GetAllKeysForGivenPartitions\<close> methods of the four typed tables, and
  \<open>common.GetSloopKey\<close>. The request parameters are taken after \<open>cleanStringFromParam\<close>
  and \<open>numberFromParam\<close> have read them. A handler's result is what it hands to its
  template, together with every call of \<open>logWebError\<close> it made.

  Integers are \<open>int\<close>. A counter that grows by one for each visited entry is left
  as it is: no run visits \<open>2 ^ 63\<close> entries. The \<open>int64\<close> sums of sizes and the
  average wrap around in the code, so each such result goes through \<open>int64\<close>, which
  reduces it to the range from \<open>- (2 ^ 63)\<close> up to \<open>2 ^ 63 - 1\<close>. Division is Go's,
  truncating towards zero (\<open>sdiv\<close>), and a zero divisor panics.
\<close>

subsection \<open>Store entries and the iterator\<close>

text \<open>The value an \<open>int64\<close> holds after an operation whose exact result is \<open>x\<close>:
  two's complement wrap-around.\<close>

definition int64 :: "int \<Rightarrow> int" where
  "int64 x = (x + 2 ^ 63) mod 2 ^ 64 - 2 ^ 63"

text \<open>What the handlers read of a \<open>badger.Item\<close>: \<open>Key()\<close>, \<open>EstimatedSize()\<close> (an
  \<open>int64\<close>) and \<open>IsDeletedOrExpired()\<close>.\<close>

record item =
  Key :: string
  EstimatedSize :: int
  IsDeletedOrExpired :: bool

text \<open>\<open>strings.HasPrefix(s, prefix)\<close>.\<close>

definition HasPrefix :: "string \<Rightarrow> string \<Rightarrow> bool" where
  "HasPrefix s p = (take (length p) s = p)"

text \<open>
  The snapshot a transaction reads is the list of its entries in key order, every version
  and the store's own keys included (\<open>AllVersions\<close>, \<open>InternalAccess\<close>). An iterator with
  \<open>Prefix = p\<close>, run from \<open>Rewind()\<close> while \<open>Valid()\<close> (or \<open>ValidForPrefix(p)\<close>), visits the
  entries whose key starts with \<open>p\<close>, in that order.
\<close>

definition iterate :: "string \<Rightarrow> item list \<Rightarrow> item list" where
  "iterate p db = filter (\<lambda>e. HasPrefix (Key e) p) db"

datatype go_panic = NilPointerDereference | IntegerDivideByZero

text \<open>A call \<open>logWebError(err, note, request, writer)\<close>: the error and the note.\<close>

datatype 'e web_error = WebError 'e string

subsection \<open>histogramHandler\<close>

record sloopKeyInfo =
  MinimumSize :: int
  MaximumSize :: int
  TotalKeys :: int
  TotalSize :: int
  AverageSize :: int

text \<open>The local variables of the closure passed to \<open>View\<close>.\<close>

record 'c hist_locals =
  totalKeys :: int
  totalEstimatedSize :: int
  totalInternalKeysSize :: int
  totalDeletedExpiredKeys :: int
  totalInternalKeys :: int
  totalMoveKeys :: int
  totalHeadKeys :: int
  totalDiscardKeys :: int
  totalSloopKeys :: int
  sloopMap :: "'c \<rightharpoonup> sloopKeyInfo"

definition hist_init :: "'c hist_locals" where
  "hist_init = \<lparr>totalKeys = 0, totalEstimatedSize = 0, totalInternalKeysSize = 0,
     totalDeletedExpiredKeys = 0, totalInternalKeys = 0, totalMoveKeys = 0,
     totalHeadKeys = 0, totalDiscardKeys = 0, totalSloopKeys = 0, sloopMap = Map.empty\<rparr>"

text \<open>The struct \<open>histogram\<close>; its fields carry the prefix \<open>h\<close> since \<open>TotalKeys\<close> is
  a field of \<open>sloopKeyInfo\<close> too.\<close>

record 'c histogram =
  hHistogramMap :: "'c \<rightharpoonup> sloopKeyInfo"
  hTotalKeys :: int
  hTotalSloopKeys :: int
  hTotalEstimatedSize :: int
  hDeletedKeys :: int
  hTotalInternalKeys :: int
  hTotalInternalKeysSize :: int
  hTotalHeadKeys :: int
  hTotalMoveKeys :: int
  hTotalDiscardKeys :: int

text \<open>\<open>var result histogram\<close>: every counter zero, the map nil.\<close>

definition histogram_zero :: "'c histogram" where
  "histogram_zero = \<lparr>hHistogramMap = Map.empty, hTotalKeys = 0, hTotalSloopKeys = 0,
     hTotalEstimatedSize = 0, hDeletedKeys = 0, hTotalInternalKeys = 0,
     hTotalInternalKeysSize = 0, hTotalHeadKeys = 0, hTotalMoveKeys = 0,
     hTotalDiscardKeys = 0\<rparr>"

text \<open>Why the closure stopped early: it returned
  \<open>errors.Wrapf(err, "failed to parse information about key: %x", item.Key())\<close>, kept here
  as the cause and the raw key, or the division panicked.\<close>

datatype 'e hist_failure = FailedToParseKey 'e string | HistPanic go_panic

text \<open>The \<open>else\<close> branch of \<open>sloopMap[sloopKey] == nil\<close>: the statistics of a category seen
  before.\<close>

definition updateInfo :: "sloopKeyInfo \<Rightarrow> int \<Rightarrow> go_panic + sloopKeyInfo" where
  "updateInfo i sz =
     (let i1 = i\<lparr>TotalKeys := TotalKeys i + 1\<rparr>;
          i2 = i1\<lparr>TotalSize := int64 (TotalSize i1 + sz)\<rparr>
      in if TotalKeys i2 = 0 then Inl IntegerDivideByZero
         else
           let i3 = i2\<lparr>AverageSize := int64 (TotalSize i2 sdiv TotalKeys i2)\<rparr>;
               i4 = (if sz < MinimumSize i3 then i3\<lparr>MinimumSize := sz\<rparr> else i3);
               i5 = (if sz > MaximumSize i4 then i4\<lparr>MaximumSize := sz\<rparr> else i4)
           in Inr i5)"

text \<open>The statistics of a category after one more entry of the given size.\<close>

definition observe :: "sloopKeyInfo option \<Rightarrow> int \<Rightarrow> go_panic + sloopKeyInfo" where
  "observe old sz =
     (case old of
        None \<Rightarrow> Inr \<lparr>MinimumSize = sz, MaximumSize = sz, TotalKeys = 1,
                      TotalSize = sz, AverageSize = sz\<rparr>
      | Some i \<Rightarrow> updateInfo i sz)"

text \<open>The classification of a key of the store itself.\<close>

definition countInternal :: "string \<Rightarrow> 'c hist_locals \<Rightarrow> 'c hist_locals" where
  "countInternal k st =
     (if HasPrefix k ''!badger!head'' then st\<lparr>totalHeadKeys := totalHeadKeys st + 1\<rparr>
      else if HasPrefix k ''!badger!move'' then st\<lparr>totalMoveKeys := totalMoveKeys st + 1\<rparr>
      else if HasPrefix k ''!badger!discard''
        then st\<lparr>totalDiscardKeys := totalDiscardKeys st + 1\<rparr>
      else st)"

text \<open>The body of the loop, for one item.\<close>

definition histogramVisit ::
  "(item \<Rightarrow> 'e + 'c) \<Rightarrow> item \<Rightarrow> 'c hist_locals \<Rightarrow> 'e hist_failure + 'c hist_locals" where
  "histogramVisit GetSloopKey it st =
     (let sz = EstimatedSize it;
          st1 = st\<lparr>totalEstimatedSize := int64 (totalEstimatedSize st + sz)\<rparr>;
          st2 = st1\<lparr>totalKeys := totalKeys st1 + 1\<rparr>;
          st3 = (if IsDeletedOrExpired it
                 then st2\<lparr>totalDeletedExpiredKeys := totalDeletedExpiredKeys st2 + 1\<rparr>
                 else st2)
      in if HasPrefix (Key it) ''!badger'' then
           let st4 = st3\<lparr>totalInternalKeys := totalInternalKeys st3 + 1\<rparr>;
               st5 = st4\<lparr>totalInternalKeysSize :=
                          int64 (totalInternalKeysSize st4 + EstimatedSize it)\<rparr>
           in Inr (countInternal (Key it) st5)
         else
           let st4 = st3\<lparr>totalSloopKeys := totalSloopKeys st3 + 1\<rparr>
           in case GetSloopKey it of
                Inl err \<Rightarrow> Inl (FailedToParseKey err (Key it))
              | Inr sloopKey \<Rightarrow>
                  (case observe (sloopMap st4 sloopKey) sz of
                     Inl p \<Rightarrow> Inl (HistPanic p)
                   | Inr info \<Rightarrow> Inr (st4\<lparr>sloopMap := (sloopMap st4)(sloopKey \<mapsto> info)\<rparr>)))"

text \<open>\<open>for itr.Rewind(); itr.Valid(); itr.Next()\<close> over the items the iterator yields.\<close>

fun histogramLoop ::
  "(item \<Rightarrow> 'e + 'c) \<Rightarrow> item list \<Rightarrow> 'c hist_locals \<Rightarrow> 'e hist_failure + 'c hist_locals" where
  "histogramLoop GetSloopKey [] st = Inr st"
| "histogramLoop GetSloopKey (it # its) st =
     (case histogramVisit GetSloopKey it st of
        Inl f \<Rightarrow> Inl f
      | Inr st' \<Rightarrow> histogramLoop GetSloopKey its st')"

text \<open>The assignments to \<open>result\<close> after the loop.\<close>

definition hist_result :: "'c hist_locals \<Rightarrow> 'c histogram" where
  "hist_result st = \<lparr>hHistogramMap = sloopMap st, hTotalKeys = totalKeys st,
     hTotalSloopKeys = totalSloopKeys st, hTotalEstimatedSize = totalEstimatedSize st,
     hDeletedKeys = totalDeletedExpiredKeys st, hTotalInternalKeys = totalInternalKeys st,
     hTotalInternalKeysSize = totalInternalKeysSize st, hTotalHeadKeys = totalHeadKeys st,
     hTotalMoveKeys = totalMoveKeys st, hTotalDiscardKeys = totalDiscardKeys st\<rparr>"

text \<open>How the handler ends: the value given to the template, the error given to
  \<open>logWebError\<close> before the early \<open>return\<close>, or a panic.\<close>

datatype ('e, 'c) hist_outcome =
  HistRendered "'c histogram"
| HistFailed "('e hist_failure) web_error"
| HistCrashed go_panic

text \<open>The items the handler's loop visits for the request parameter \<open>prefix\<close>.\<close>

definition histVisited :: "string \<Rightarrow> item list \<Rightarrow> item list" where
  "histVisited prefix db =
     (if length prefix > 0 then iterate (if prefix = ''*'' then '''' else prefix) db else [])"

definition histogramHandler ::
  "(item \<Rightarrow> 'e + 'c) \<Rightarrow> item list \<Rightarrow> string \<Rightarrow> ('e, 'c) hist_outcome" where
  "histogramHandler GetSloopKey db prefix =
     (if length prefix > 0 then
        let prefix' = (if prefix = ''*'' then '''' else prefix)
        in case histogramLoop GetSloopKey (iterate prefix' db) hist_init of
             Inl (HistPanic p) \<Rightarrow> HistCrashed p
           | Inl (FailedToParseKey err k) \<Rightarrow>
               HistFailed (WebError (FailedToParseKey err k) ''Could not get histogram'')
           | Inr st \<Rightarrow> HistRendered (hist_result st)
      else HistRendered histogram_zero)"

subsection \<open>listKeysHandler\<close>

text \<open>The four typed tables, in the order in which \<open>viewKeyHandler\<close> probes them.\<close>

datatype typed_table = WatchTable | ResourceSummaryTable | EventCountTable | WatchActivityTable

text \<open>The request parameters \<open>table\<close>, \<open>maxrows\<close> (1000 when absent), \<open>searchOption\<close>,
  \<open>keymatch\<close>, \<open>lookback\<close> (336 when absent) and \<open>urlmatch\<close>.\<close>

record list_request =
  table :: string
  maxRows :: int
  searchOption :: string
  keymatch :: string
  lookBack :: int
  urlmatch :: string

text \<open>The struct \<open>keysData\<close>; \<open>TotalKeys\<close> and \<open>TotalSize\<close> carry the prefix \<open>k\<close>.\<close>

record keysData =
  Keys :: "string list"
  kTotalKeys :: int
  kTotalSize :: int
  KeysMatched :: int

text \<open>The variables the regex scan updates.\<close>

record scan_locals =
  keys :: "string list"
  count :: int
  totalCount :: int
  totalSize :: int

definition scan_init :: scan_locals where
  "scan_init = \<lparr>keys = [], count = 0, totalCount = 0, totalSize = 0\<rparr>"

text \<open>A scan runs to its end (or to a \<open>break\<close>), or panics; the variables are kept in
  both cases.\<close>

datatype scan_result = Completed scan_locals | ScanPanicked go_panic scan_locals

definition tablesToSearch :: "string \<Rightarrow> string list" where
  "tablesToSearch tbl =
     (if tbl = ''all'' then [''watch'', ''eventcount'', ''ressum'', ''watchactivity'']
      else [tbl])"

definition keyPrefix :: "string \<Rightarrow> string" where
  "keyPrefix tablename = (if tablename \<noteq> ''internal'' then ''/'' @ tablename @ ''/'' else [])"

text \<open>
  The inner loop over the items of one iterator. \<open>keyRegEx\<close> is \<open>None\<close> for the nil
  pointer that \<open>regexp.Compile\<close> returns with an error; \<open>MatchString\<close> on it dereferences
  nil. The loop ends at the \<open>break\<close> or when the iterator has no more items.
\<close>

fun scanTable ::
  "'rx option \<Rightarrow> ('rx \<Rightarrow> string \<Rightarrow> bool) \<Rightarrow> int \<Rightarrow> item list \<Rightarrow> scan_locals \<Rightarrow> scan_result" where
  "scanTable keyRegEx MatchString maxR [] st = Completed st"
| "scanTable keyRegEx MatchString maxR (it # its) st =
     (let st1 = st\<lparr>totalCount := totalCount st + 1\<rparr>;
          thisKey = Key it
      in case keyRegEx of
           None \<Rightarrow> ScanPanicked NilPointerDereference st1
         | Some re \<Rightarrow>
             if MatchString re thisKey then
               let st2 = st1\<lparr>keys := keys st1 @ [thisKey]\<rparr>;
                   st3 = st2\<lparr>count := count st2 + 1\<rparr>;
                   st4 = st3\<lparr>totalSize := int64 (totalSize st3 + EstimatedSize it)\<rparr>
               in if count st4 \<ge> maxR then Completed st4
                  else scanTable keyRegEx MatchString maxR its st4
             else scanTable keyRegEx MatchString maxR its st1)"

text \<open>The outer loop \<open>for _, tablename := range tablesToSearch\<close> of the regex search.\<close>

fun scanTables ::
  "'rx option \<Rightarrow> ('rx \<Rightarrow> string \<Rightarrow> bool) \<Rightarrow> int \<Rightarrow> item list \<Rightarrow> string list \<Rightarrow>
     scan_locals \<Rightarrow> scan_result" where
  "scanTables keyRegEx MatchString maxR db [] st = Completed st"
| "scanTables keyRegEx MatchString maxR db (tablename # rest) st =
     (case scanTable keyRegEx MatchString maxR (iterate (keyPrefix tablename) db) st of
        ScanPanicked p st' \<Rightarrow> ScanPanicked p st'
      | Completed st' \<Rightarrow> scanTables keyRegEx MatchString maxR db rest st')"

text \<open>The \<open>switch tablename\<close> of the partition search; it has no \<open>default\<close>.\<close>

definition partitionKeys ::
  "(typed_table \<Rightarrow> int \<Rightarrow> int \<Rightarrow> string \<Rightarrow> string list) \<Rightarrow> int \<Rightarrow> int \<Rightarrow> string \<Rightarrow>
     string \<Rightarrow> string list" where
  "partitionKeys GetAllKeysForGivenPartitions maxR lookB keySearch tablename =
     (if tablename = ''watch''
        then GetAllKeysForGivenPartitions WatchTable maxR lookB keySearch
      else if tablename = ''eventcount''
        then GetAllKeysForGivenPartitions EventCountTable maxR lookB keySearch
      else if tablename = ''ressum''
        then GetAllKeysForGivenPartitions ResourceSummaryTable maxR lookB keySearch
      else if tablename = ''watchactivity''
        then GetAllKeysForGivenPartitions WatchActivityTable maxR lookB keySearch
      else [])"

fun partitionSearch ::
  "(typed_table \<Rightarrow> int \<Rightarrow> int \<Rightarrow> string \<Rightarrow> string list) \<Rightarrow> int \<Rightarrow> int \<Rightarrow> string \<Rightarrow>
     string list \<Rightarrow> string list \<Rightarrow> string list" where
  "partitionSearch G maxR lookB keySearch [] ks = ks"
| "partitionSearch G maxR lookB keySearch (tablename # rest) ks =
     partitionSearch G maxR lookB keySearch rest
       (ks @ partitionKeys G maxR lookB keySearch tablename)"

text \<open>How the handler ends: \<open>result\<close> is given to the template, or the handler panicked.\<close>

datatype list_outcome = ListRendered keysData | ListCrashed go_panic scan_locals

text \<open>The calls of \<open>logWebError\<close>, in order, and the end of the handler.\<close>

record 'e list_response =
  webErrors :: "'e web_error list"
  outcome :: list_outcome

text \<open>The assignments to \<open>result\<close> before the template is executed.\<close>

definition listResult :: "scan_locals \<Rightarrow> keysData" where
  "listResult st = \<lparr>Keys = keys st, kTotalKeys = totalCount st, kTotalSize = totalSize st,
     KeysMatched = count st\<rparr>"

text \<open>After the regex search: a panic ends the handler, otherwise \<open>result\<close> is rendered.\<close>

definition scanOutcome :: "scan_result \<Rightarrow> list_outcome" where
  "scanOutcome sr =
     (case sr of
        ScanPanicked p st \<Rightarrow> ListCrashed p st
      | Completed st \<Rightarrow> ListRendered (listResult st))"

text \<open>
  The handler up to the value it gives to the template. The closure passed to \<open>View\<close>
  returns nil on every path, so the \<open>return\<close> after "Could not list keys" is never
  taken. After a failed \<open>regexp.Compile\<close> the handler calls \<open>logWebError\<close> and goes on.
\<close>

definition listKeysHandler ::
  "(string \<Rightarrow> 'e + 'rx) \<Rightarrow> ('rx \<Rightarrow> string \<Rightarrow> bool) \<Rightarrow>
   (typed_table \<Rightarrow> int \<Rightarrow> int \<Rightarrow> string \<Rightarrow> string list) \<Rightarrow> item list \<Rightarrow> list_request \<Rightarrow>
     'e list_response" where
  "listKeysHandler Compile MatchString GetAllKeysForGivenPartitions db req =
     (let regexSearch = (searchOption req = ''regex'');
          compiled = (if regexSearch then Some (Compile (keymatch req)) else None);
          keyRegEx = (case compiled of Some (Inr re) \<Rightarrow> Some re | _ \<Rightarrow> None);
          errs = (case compiled of Some (Inl err) \<Rightarrow> [WebError err ''Invalid regex''] | _ \<Rightarrow> [])
      in if regexSearch then
           \<lparr>webErrors = errs,
            outcome = scanOutcome (scanTables keyRegEx MatchString (maxRows req) db
                        (tablesToSearch (table req)) scan_init)\<rparr>
         else
           let ks = partitionSearch GetAllKeysForGivenPartitions (maxRows req) (lookBack req)
                      (urlmatch req) (tablesToSearch (table req)) [];
               st = scan_init\<lparr>keys := ks\<rparr>;
               st1 = st\<lparr>count := int (length (keys st))\<rparr>;
               st2 = st1\<lparr>totalSize := int (length (keys st1))\<rparr>;
               st3 = st2\<lparr>totalCount := int (length (keys st2))\<rparr>
           in \<lparr>webErrors = errs, outcome = ListRendered (listResult st3)\<rparr>)"

subsection \<open>viewKeyHandler\<close>

text \<open>What the closure passed to \<open>View\<close> calls, in order: \<open>ValidateKey\<close> of a table's key
  type, and \<open>Get\<close> of a table with the transaction of that \<open>View\<close>.\<close>

datatype 'txn view_call = ValidateKey typed_table string | Get typed_table 'txn string

text \<open>The error the closure returns: the one \<open>Get\<close> gave, or "Invalid key: <key>".\<close>

datatype 'e view_error = GetError 'e | InvalidKey string

text \<open>
  The closure of \<open>viewKeyHandler\<close>: the calls it makes, and the table and value it leaves
  in \<open>valueFromTable\<close> or the error it returns (which the handler gives to \<open>logWebError\<close>
  with "view transaction failed" before it returns). \<open>Validate t k\<close> stands for
  \<open>ValidateKey(k) == nil\<close> of the key type of \<open>t\<close>. The rendering of the value is left out.
\<close>

definition viewKey ::
  "(typed_table \<Rightarrow> string \<Rightarrow> bool) \<Rightarrow> (typed_table \<Rightarrow> 'txn \<Rightarrow> string \<Rightarrow> 'e + 'v) \<Rightarrow> 'txn \<Rightarrow>
     string \<Rightarrow> 'txn view_call list \<times> ('e view_error + typed_table \<times> 'v)" where
  "viewKey Validate GetValue txn key =
     (let fetch = (\<lambda>t. case GetValue t txn key of
                          Inl err \<Rightarrow> Inl (GetError err)
                        | Inr v \<Rightarrow> Inr (t, v))
      in if Validate WatchTable key then
           ([ValidateKey WatchTable key, Get WatchTable txn key], fetch WatchTable)
         else if Validate ResourceSummaryTable key then
           ([ValidateKey WatchTable key, ValidateKey ResourceSummaryTable key,
             Get ResourceSummaryTable txn key], fetch ResourceSummaryTable)
         else if Validate EventCountTable key then
           ([ValidateKey WatchTable key, ValidateKey ResourceSummaryTable key,
             ValidateKey EventCountTable key, Get EventCountTable txn key],
            fetch EventCountTable)
         else if Validate WatchActivityTable key then
           ([ValidateKey WatchTable key, ValidateKey ResourceSummaryTable key,
             ValidateKey EventCountTable key, ValidateKey WatchActivityTable key,
             Get WatchActivityTable txn key], fetch WatchActivityTable)
         else
           ([ValidateKey WatchTable key, ValidateKey ResourceSummaryTable key,
             ValidateKey EventCountTable key, ValidateKey WatchActivityTable key],
            Inl (InvalidKey key)))"

section \<open>What the specification says, as definitions\<close>

subsection \<open>Classes of keys\<close>

text \<open>
  The specification sorts every visited entry into internal or domain, and an internal
  one into head, move, discard or none of these. \<open>classify\<close> gives each key its one class,
  and \<open>countClass\<close> counts the entries of a class among those visited.
\<close>

datatype key_class = HeadKey | MoveKey | DiscardKey | OtherInternalKey | DomainKey

definition classify :: "string \<Rightarrow> key_class" where
  "classify k =
     (if HasPrefix k ''!badger'' then
        (if HasPrefix k ''!badger!head'' then HeadKey
         else if HasPrefix k ''!badger!move'' then MoveKey
         else if HasPrefix k ''!badger!discard'' then DiscardKey
         else OtherInternalKey)
      else DomainKey)"

definition countClass :: "key_class \<Rightarrow> item list \<Rightarrow> int" where
  "countClass c its = int (length (filter (\<lambda>e. classify (Key e) = c) its))"

subsection \<open>The incremental rule of the scan statistics\<close>

text \<open>
  On the first observation min = max = total = average = size and count = 1; on each
  later one count grows by 1, total by the size, the average is total / count in integer
  division, and min and max change only when the new size is beyond them.
\<close>

definition spec_stats_step :: "sloopKeyInfo option \<Rightarrow> int \<Rightarrow> sloopKeyInfo" where
  "spec_stats_step old sz =
     (case old of
        None \<Rightarrow> \<lparr>MinimumSize = sz, MaximumSize = sz, TotalKeys = 1, TotalSize = sz,
                  AverageSize = sz\<rparr>
      | Some i \<Rightarrow>
          \<lparr>MinimumSize = (if sz < MinimumSize i then sz else MinimumSize i),
           MaximumSize = (if sz > MaximumSize i then sz else MaximumSize i),
           TotalKeys = TotalKeys i + 1,
           TotalSize = TotalSize i + sz,
           AverageSize = (TotalSize i + sz) sdiv (TotalKeys i + 1)\<rparr>)"

text \<open>The rule run over the sizes of a sequence of observations.\<close>

fun spec_stats :: "sloopKeyInfo option \<Rightarrow> int list \<Rightarrow> sloopKeyInfo option" where
  "spec_stats acc [] = acc"
| "spec_stats acc (sz # szs) = spec_stats (Some (spec_stats_step acc sz)) szs"

text \<open>A domain entry of category \<open>c\<close>, and a domain entry that has no category.\<close>

definition ofCategory :: "(item \<Rightarrow> 'e + 'c) \<Rightarrow> 'c \<Rightarrow> item \<Rightarrow> bool" where
  "ofCategory GetSloopKey c e \<longleftrightarrow> classify (Key e) = DomainKey \<and> GetSloopKey e = Inr c"

definition uncategorized :: "(item \<Rightarrow> 'e + 'c) \<Rightarrow> item \<Rightarrow> bool" where
  "uncategorized GetSloopKey e \<longleftrightarrow> classify (Key e) = DomainKey \<and> isl (GetSloopKey e)"

text \<open>The absolute value of the total of a category so far.\<close>

definition absTotal :: "sloopKeyInfo option \<Rightarrow> int" where
  "absTotal old = (case old of None \<Rightarrow> 0 | Some i \<Rightarrow> \<bar>TotalSize i\<bar>)"

text \<open>Every category in the map has been counted at least once.\<close>

definition counts_positive :: "('c \<rightharpoonup> sloopKeyInfo) \<Rightarrow> bool" where
  "counts_positive m \<longleftrightarrow> (\<forall>c i. m c = Some i \<longrightarrow> 0 < TotalKeys i)"

subsection \<open>The single-key resolver\<close>

text \<open>
  The specification probes the validators in the fixed order watch, resource-summary,
  event-count, watch-activity; the first that succeeds gives the table whose value is
  fetched in the same snapshot, and when none succeeds the result is the invalid-key
  error and nothing is fetched.
\<close>

definition registry :: "typed_table list" where
  "registry = [WatchTable, ResourceSummaryTable, EventCountTable, WatchActivityTable]"

definition resolveKey_spec ::
  "(typed_table \<Rightarrow> string \<Rightarrow> bool) \<Rightarrow> (typed_table \<Rightarrow> 'txn \<Rightarrow> string \<Rightarrow> 'e + 'v) \<Rightarrow> 'txn \<Rightarrow>
     string \<Rightarrow> 'txn view_call list \<times> ('e view_error + typed_table \<times> 'v)" where
  "resolveKey_spec Validate GetValue txn key =
     (case find (\<lambda>t. Validate t key) registry of
        None \<Rightarrow> (map (\<lambda>t. ValidateKey t key) registry, Inl (InvalidKey key))
      | Some t \<Rightarrow>
          (map (\<lambda>u. ValidateKey u key) (takeWhile (\<lambda>u. \<not> Validate u key) registry)
             @ [ValidateKey t key, Get t txn key],
           case GetValue t txn key of
             Inl err \<Rightarrow> Inl (GetError err)
           | Inr v \<Rightarrow> Inr (t, v)))"

subsection \<open>Matching entries\<close>

text \<open>The entries whose key the compiled pattern matches.\<close>

definition matching :: "('rx \<Rightarrow> string \<Rightarrow> bool) \<Rightarrow> 'rx \<Rightarrow> item list \<Rightarrow> item list" where
  "matching MatchString re its = filter (\<lambda>e. MatchString re (Key e)) its"

text \<open>The sizes of the given entries added to a total one by one, as the regex scan adds
  the sizes of the matching entries.\<close>

fun addSizes :: "int \<Rightarrow> item list \<Rightarrow> int" where
  "addSizes acc [] = acc"
| "addSizes acc (e # es) = addSizes (int64 (acc + EstimatedSize e)) es"

text \<open>What one pass of the loop body does to the counters.\<close>

definition visit_counts :: "item \<Rightarrow> 'c hist_locals \<Rightarrow> 'c hist_locals \<Rightarrow> bool" where
  "visit_counts it st st' \<longleftrightarrow>
     totalKeys st' = totalKeys st + 1 \<and>
     totalInternalKeys st' = totalInternalKeys st + (if classify (Key it) = DomainKey then 0 else 1) \<and>
     totalSloopKeys st' = totalSloopKeys st + (if classify (Key it) = DomainKey then 1 else 0) \<and>
     totalHeadKeys st' = totalHeadKeys st + (if classify (Key it) = HeadKey then 1 else 0) \<and>
     totalMoveKeys st' = totalMoveKeys st + (if classify (Key it) = MoveKey then 1 else 0) \<and>
     totalDiscardKeys st' = totalDiscardKeys st + (if classify (Key it) = DiscardKey then 1 else 0)"

section \<open>Concrete stores\<close>

definition entry :: "string \<Rightarrow> int \<Rightarrow> item" where
  "entry k sz = \<lparr>Key = k, EstimatedSize = sz, IsDeletedOrExpired = False\<rparr>"

text \<open>A categorizer for the concrete runs: the category of \<open>/A/...\<close> is \<open>/A\<close>, and a key
  that does not start with \<open>/\<close> has none.\<close>

definition pathCategory :: "item \<Rightarrow> string + string" where
  "pathCategory e =
     (if HasPrefix (Key e) ''/'' then Inr (take 2 (Key e)) else Inl ''not a sloop key'')"

text \<open>The store of the specification's histogram scenario: three head keys, two move
  keys, five keys of category A with sizes 10 to 50 and one of category B with size 5.\<close>

definition scenario_store :: "item list" where
  "scenario_store =
     [entry ''!badger!head'' 1, entry ''!badger!head'' 1, entry ''!badger!head'' 1,
      entry ''!badger!move1'' 2, entry ''!badger!move2'' 2,
      entry ''/A/1'' 10, entry ''/A/2'' 20, entry ''/A/3'' 30, entry ''/A/4'' 40,
      entry ''/A/5'' 50, entry ''/B/1'' 5]"

definition scenario_histogram :: "string histogram" where
  "scenario_histogram =
     \<lparr>hHistogramMap =
         [''/A'' \<mapsto> \<lparr>MinimumSize = 10, MaximumSize = 50, TotalKeys = 5, TotalSize = 150,
                     AverageSize = 30\<rparr>,
          ''/B'' \<mapsto> \<lparr>MinimumSize = 5, MaximumSize = 5, TotalKeys = 1, TotalSize = 5,
                     AverageSize = 5\<rparr>],
       hTotalKeys = 11, hTotalSloopKeys = 6, hTotalEstimatedSize = 162, hDeletedKeys = 0,
       hTotalInternalKeys = 5, hTotalInternalKeysSize = 7, hTotalHeadKeys = 3,
       hTotalMoveKeys = 2, hTotalDiscardKeys = 0\<rparr>"

text \<open>A store with a domain key that has no category.\<close>

definition corrupt_store :: "item list" where
  "corrupt_store =
     [entry ''!badger!head'' 1, entry ''/A/1'' 10, entry ''corrupt'' 4, entry ''/B/1'' 5]"

text \<open>A stand-in for \<open>GetAllKeysForGivenPartitions\<close> in the concrete runs: two keys in the
  watch table, one in the event-count table, whatever the other arguments.\<close>

definition somePartitionKeys :: "typed_table \<Rightarrow> int \<Rightarrow> int \<Rightarrow> string \<Rightarrow> string list" where
  "somePartitionKeys t maxR lookB keySearch =
     (case t of
        WatchTable \<Rightarrow> [''/watch/a'', ''/watch/b'']
      | EventCountTable \<Rightarrow> [''/eventcount/c'']
      | ResourceSummaryTable \<Rightarrow> []
      | WatchActivityTable \<Rightarrow> [])"

text \<open>
  A small regular-expression engine for the concrete runs below. It knows only patterns
  made of letters, digits and \<open>/\<close>, which match the strings that contain them (the empty
  pattern matches every string), as they do for \<open>regexp\<close>; every other pattern it
  rejects, among them \<open>(\<close>, which \<open>regexp.Compile\<close> rejects too.
\<close>

fun literalPattern :: "string \<Rightarrow> bool" where
  "literalPattern [] = True"
| "literalPattern (c # cs) =
     (List.member ''abcdefghijklmnopqrstuvwxyz0123456789/'' c \<and> literalPattern cs)"

definition literalCompile :: "string \<Rightarrow> string + string" where
  "literalCompile p = (if literalPattern p then Inr p else Inl ''error parsing regexp'')"

fun literalMatch :: "string \<Rightarrow> string \<Rightarrow> bool" where
  "literalMatch re [] = (re = [])"
| "literalMatch re (c # cs) = (HasPrefix (c # cs) re \<or> literalMatch re cs)"

text \<open>Stores for the runs of the list-keys handler.\<close>

definition watch_store :: "item list" where
  "watch_store = [entry ''/watch/a'' 7]"

definition two_table_store :: "item list" where
  "two_table_store = [entry ''/eventcount/b'' 5, entry ''/watch/a'' 7]"

definition mixed_store :: "item list" where
  "mixed_store = [entry ''!badger!head'' 3, entry ''/foo/x'' 4, entry ''/watch/a'' 7]"

text \<open>Validators and a \<open>Get\<close> for the runs of the single-key resolver: a key belongs to
  the table whose prefix it has, and every key has a value.\<close>

definition prefixValidate :: "typed_table \<Rightarrow> string \<Rightarrow> bool" where
  "prefixValidate t k =
     (case t of
        WatchTable \<Rightarrow> HasPrefix k ''/watch/''
      | ResourceSummaryTable \<Rightarrow> HasPrefix k ''/ressum/''
      | EventCountTable \<Rightarrow> HasPrefix k ''/eventcount/''
      | WatchActivityTable \<Rightarrow> HasPrefix k ''/watchactivity/'')"

definition echoGet :: "typed_table \<Rightarrow> nat \<Rightarrow> string \<Rightarrow> string + string" where
  "echoGet t txn k = Inr (''value of '' @ k)"

section \<open>Wrap-around\<close>

text \<open>\<open>int64\<close> changes nothing in range, and a sum can be reduced before or after a
  summand is added.\<close>

lemma int64_id: "- (2 ^ 63) \<le> x \<Longrightarrow> x < 2 ^ 63 \<Longrightarrow> int64 x = x"
  by (simp add: int64_def)

lemma int64_numeral_id:
  "- 9223372036854775808 \<le> x \<Longrightarrow> x < 9223372036854775808 \<Longrightarrow> int64 x = x"
  by (simp add: int64_def)

lemma int64_abs: "\<bar>x\<bar> < 2 ^ 63 \<Longrightarrow> int64 x = x"
  by (rule int64_id) simp_all

lemma int64_add_left: "int64 (int64 a + b) = int64 (a + b)"
proof -
  have "(int64 a + b + 2 ^ 63) mod 2 ^ 64 = ((a + 2 ^ 63) mod 2 ^ 64 + b) mod 2 ^ 64"
    by (simp add: int64_def)
  also have "\<dots> = (a + 2 ^ 63 + b) mod 2 ^ 64"
    by (simp add: mod_add_left_eq)
  also have "\<dots> = (a + b + 2 ^ 63) mod 2 ^ 64"
    by (simp add: algebra_simps)
  finally show ?thesis
    by (simp add: int64_def)
qed

lemma int64_idem: "int64 (int64 x) = int64 x"
  using int64_add_left [of x 0] by simp

text \<open>Truncating division never gives more than the dividend, in absolute value.\<close>

lemma sdiv_abs_le: "\<bar>a sdiv b\<bar> \<le> \<bar>a\<bar>" for a b :: int
proof (cases "a = 0 \<or> b = 0")
  case True
  then show ?thesis
    by (auto simp: signed_divide_int_def)
next
  case False
  then have "0 < \<bar>a\<bar>" by simp
  then have "\<bar>a\<bar> div \<bar>b\<bar> \<le> \<bar>a\<bar>"
    by (rule int_div_le_self)
  moreover have "0 \<le> \<bar>a\<bar> div \<bar>b\<bar>"
    by (simp add: div_int_pos_iff)
  moreover from False have "\<bar>a sdiv b\<bar> = \<bar>\<bar>a\<bar> div \<bar>b\<bar>\<bar>"
    by (simp add: signed_divide_int_def abs_mult abs_sgn_eq)
  ultimately show ?thesis by simp
qed

section \<open>The histogram\<close>

subsection \<open>Prefixes and classes\<close>

lemma countClass_Nil: "countClass c [] = 0"
  by (simp add: countClass_def)

lemma countClass_Cons:
  "countClass c (e # es) = (if classify (Key e) = c then 1 else 0) + countClass c es"
  by (simp add: countClass_def)

lemma countClass_total:
  "int (length its) = countClass HeadKey its + countClass MoveKey its + countClass DiscardKey its
     + countClass OtherInternalKey its + countClass DomainKey its"
proof (induction its)
  case Nil
  then show ?case by (simp add: countClass_Nil)
next
  case (Cons e es)
  then show ?case
    by (cases "classify (Key e)") (simp_all add: countClass_Cons)
qed

lemma HasPrefix_append:
  assumes "HasPrefix k (p @ q)"
  shows "HasPrefix k p"
proof -
  have "take (length p) k = take (length p) (take (length (p @ q)) k)"
    by (simp add: min_def)
  also have "\<dots> = take (length p) (p @ q)"
    using assms by (simp add: HasPrefix_def)
  finally show ?thesis
    by (simp add: HasPrefix_def)
qed

text \<open>The three sub-prefixes are tested only on keys that have the prefix \<open>!badger\<close>, and
  every key that has one of them has it.\<close>

lemma sub_prefix_internal:
  "HasPrefix k ''!badger!head'' \<or> HasPrefix k ''!badger!move'' \<or> HasPrefix k ''!badger!discard''
     \<Longrightarrow> HasPrefix k ''!badger''"
  using HasPrefix_append [of k "''!badger''" "''!head''"]
        HasPrefix_append [of k "''!badger''" "''!move''"]
        HasPrefix_append [of k "''!badger''" "''!discard''"]
  by auto

subsection \<open>The counters\<close>

lemma histogramVisit_counts:
  assumes "histogramVisit G it st = Inr st'"
  shows "visit_counts it st st'"
proof (cases "HasPrefix (Key it) ''!badger''")
  case True
  with assms have "st' = countInternal (Key it)
      (st\<lparr>totalEstimatedSize := int64 (totalEstimatedSize st + EstimatedSize it),
          totalKeys := totalKeys st + 1,
          totalDeletedExpiredKeys :=
            totalDeletedExpiredKeys st + (if IsDeletedOrExpired it then 1 else 0),
          totalInternalKeys := totalInternalKeys st + 1,
          totalInternalKeysSize := int64 (totalInternalKeysSize st + EstimatedSize it)\<rparr>)"
    by (auto simp: histogramVisit_def Let_def split: if_splits)
  with True show ?thesis
    by (simp add: visit_counts_def classify_def countInternal_def)
next
  case False
  with assms obtain m where
    "st' = st\<lparr>totalEstimatedSize := int64 (totalEstimatedSize st + EstimatedSize it),
          totalKeys := totalKeys st + 1,
          totalDeletedExpiredKeys :=
            totalDeletedExpiredKeys st + (if IsDeletedOrExpired it then 1 else 0),
          totalSloopKeys := totalSloopKeys st + 1, sloopMap := m\<rparr>"
    by (auto simp: histogramVisit_def Let_def split: if_splits sum.splits)
  with False show ?thesis
    by (simp add: visit_counts_def classify_def)
qed

lemma histogramLoop_counts:
  "histogramLoop G its st = Inr st' \<Longrightarrow>
     totalKeys st' = totalKeys st + int (length its) \<and>
     totalInternalKeys st' = totalInternalKeys st + (int (length its) - countClass DomainKey its) \<and>
     totalSloopKeys st' = totalSloopKeys st + countClass DomainKey its \<and>
     totalHeadKeys st' = totalHeadKeys st + countClass HeadKey its \<and>
     totalMoveKeys st' = totalMoveKeys st + countClass MoveKey its \<and>
     totalDiscardKeys st' = totalDiscardKeys st + countClass DiscardKey its"
proof (induction its arbitrary: st)
  case Nil
  then show ?case by (simp add: countClass_Nil)
next
  case (Cons it its)
  then obtain st1 where v: "histogramVisit G it st = Inr st1"
    and l: "histogramLoop G its st1 = Inr st'"
    by (auto split: sum.splits)
  from histogramVisit_counts [OF v] Cons.IH [OF l] show ?case
    by (simp add: visit_counts_def countClass_Cons)
qed

text \<open>A rendered histogram is the result of a loop that ran to its end over the visited
  items; with an empty \<open>prefix\<close> parameter that is the loop over no item.\<close>

lemma histogramHandler_rendered:
  assumes "histogramHandler G db prefix = HistRendered r"
  shows "\<exists>st. histogramLoop G (histVisited prefix db) hist_init = Inr st \<and> r = hist_result st"
proof (cases "prefix = []")
  case True
  with assms have "r = histogram_zero"
    by (simp add: histogramHandler_def)
  with True show ?thesis
    by (simp add: histVisited_def hist_result_def hist_init_def histogram_zero_def)
next
  case False
  with assms show ?thesis
    by (auto simp: histogramHandler_def histVisited_def Let_def
        split: sum.splits hist_failure.splits)
qed

text \<open>The histogram of the scenario store, computed by the handler.\<close>

lemma scenario_run:
  "histogramHandler pathCategory scenario_store ''*'' = HistRendered scenario_histogram"
  by (simp add: histogramHandler_def iterate_def HasPrefix_def scenario_store_def entry_def
      histogramVisit_def countInternal_def pathCategory_def observe_def updateInfo_def
      hist_init_def hist_result_def scenario_histogram_def Let_def signed_divide_int_def
      int64_numeral_id)

text \<open>
  C3. Whenever the histogram handler renders a result, the total number of keys is the
  number of internal keys plus the number of domain keys, and the number of internal keys
  is the sum of the head, move and discard keys and the internal keys of none of these
  three kinds. Each counter is the number of visited entries of its class, and every entry
  has exactly one class.
\<close>

theorem histogram_counts_partition:
  assumes "histogramHandler G db prefix = HistRendered r"
  shows "hTotalKeys r = hTotalInternalKeys r + hTotalSloopKeys r \<and>
         hTotalInternalKeys r = hTotalHeadKeys r + hTotalMoveKeys r + hTotalDiscardKeys r
           + countClass OtherInternalKey (histVisited prefix db) \<and>
         hTotalKeys r = int (length (histVisited prefix db)) \<and>
         hTotalSloopKeys r = countClass DomainKey (histVisited prefix db) \<and>
         hTotalHeadKeys r = countClass HeadKey (histVisited prefix db) \<and>
         hTotalMoveKeys r = countClass MoveKey (histVisited prefix db) \<and>
         hTotalDiscardKeys r = countClass DiscardKey (histVisited prefix db)"
proof -
  from histogramHandler_rendered [OF assms] obtain st
    where l: "histogramLoop G (histVisited prefix db) hist_init = Inr st"
      and r: "r = hist_result st"
    by blast
  from histogramLoop_counts [OF l] countClass_total [of "histVisited prefix db"] r
  show ?thesis
    by (simp add: hist_result_def hist_init_def)
qed

theorem histogram_counts_partition_witness:
  "histogramHandler pathCategory scenario_store ''*'' = HistRendered scenario_histogram \<and>
   hTotalKeys scenario_histogram
     = hTotalInternalKeys scenario_histogram + hTotalSloopKeys scenario_histogram \<and>
   countClass OtherInternalKey (histVisited ''*'' scenario_store) = 0 \<and>
   countClass DomainKey (histVisited ''*'' scenario_store) = 6 \<and>
   countClass HeadKey (histVisited ''*'' scenario_store) = 3 \<and>
   countClass MoveKey (histVisited ''*'' scenario_store) = 2 \<and>
   countClass DiscardKey (histVisited ''*'' scenario_store) = 0"
  using histogram_counts_partition [OF scenario_run] scenario_run
  by (simp add: scenario_histogram_def)

subsection \<open>The statistics of a category\<close>

text \<open>Where \<open>observe\<close> returns and the total stays in range, it returns what the
  incremental rule says; it returns whenever the count it starts from is positive.\<close>

lemma observe_bounded:
  assumes "observe old sz = Inr i'"
    and "absTotal old + \<bar>sz\<bar> < 2 ^ 63"
  shows "i' = spec_stats_step old sz \<and> absTotal (Some i') \<le> absTotal old + \<bar>sz\<bar>"
proof (cases old)
  case None
  with assms(1) show ?thesis
    by (auto simp: observe_def spec_stats_step_def absTotal_def)
next
  case (Some i)
  from Some assms(2) have b: "\<bar>TotalSize i + sz\<bar> < 2 ^ 63"
    by (simp add: absTotal_def)
  then have t: "int64 (TotalSize i + sz) = TotalSize i + sz"
    by (rule int64_abs)
  have "\<bar>(TotalSize i + sz) sdiv (TotalKeys i + 1)\<bar> < 2 ^ 63"
    using sdiv_abs_le [of "TotalSize i + sz" "TotalKeys i + 1"] b by linarith
  then have a: "int64 ((TotalSize i + sz) sdiv (TotalKeys i + 1))
      = (TotalSize i + sz) sdiv (TotalKeys i + 1)"
    by (rule int64_abs)
  from Some assms(1) have "i' = spec_stats_step old sz"
    by (auto simp: observe_def updateInfo_def spec_stats_step_def Let_def t a split: if_splits)
  moreover from this Some have "absTotal (Some i') \<le> absTotal old + \<bar>sz\<bar>"
    by (simp add: absTotal_def spec_stats_step_def)
  ultimately show ?thesis by simp
qed

text \<open>Beyond the range the total wraps around: two entries of size \<open>2 ^ 62\<close> give the
  total \<open>- (2 ^ 63)\<close> and the average \<open>- (2 ^ 62)\<close>.\<close>

lemma observe_wraps:
  "observe (Some \<lparr>MinimumSize = 2 ^ 62, MaximumSize = 2 ^ 62, TotalKeys = 1,
                    TotalSize = 2 ^ 62, AverageSize = 2 ^ 62\<rparr>) (2 ^ 62)
     = Inr \<lparr>MinimumSize = 2 ^ 62, MaximumSize = 2 ^ 62, TotalKeys = 2,
            TotalSize = - (2 ^ 63), AverageSize = - (2 ^ 62)\<rparr>"
  by (simp add: observe_def updateInfo_def Let_def int64_def signed_divide_int_def)

lemma observe_positive:
  assumes "\<And>i. old = Some i \<Longrightarrow> 0 < TotalKeys i"
  shows "\<exists>info. observe old sz = Inr info \<and> 0 < TotalKeys info"
proof (cases old)
  case None
  then show ?thesis by (simp add: observe_def)
next
  case (Some i)
  with assms have "0 < TotalKeys i" by simp
  with Some show ?thesis
    by (auto simp: observe_def updateInfo_def Let_def)
qed

text \<open>One pass of the loop body changes the statistics of the entry's own category
  only, by \<open>observe\<close>.\<close>

lemma histogramVisit_map_other:
  assumes "histogramVisit G it st = Inr st'" and "\<not> ofCategory G c it"
  shows "sloopMap st' c = sloopMap st c"
proof (cases "HasPrefix (Key it) ''!badger''")
  case True
  with assms(1) have "sloopMap st' = sloopMap st"
    by (auto simp: histogramVisit_def countInternal_def Let_def split: if_splits)
  then show ?thesis by simp
next
  case False
  with assms(1) obtain k info where k: "G it = Inr k"
    and m: "sloopMap st' = (sloopMap st)(k \<mapsto> info)"
    by (auto simp: histogramVisit_def Let_def split: if_splits sum.splits)
  from False k assms(2) have "k \<noteq> c"
    by (auto simp: ofCategory_def classify_def)
  with m show ?thesis by simp
qed

lemma histogramVisit_map_same:
  assumes "histogramVisit G it st = Inr st'" and "ofCategory G c it"
  shows "\<exists>info. observe (sloopMap st c) (EstimatedSize it) = Inr info \<and>
           sloopMap st' c = Some info"
proof -
  from assms(2) have d: "\<not> HasPrefix (Key it) ''!badger''" and k: "G it = Inr c"
    by (auto simp: ofCategory_def classify_def split: if_splits)
  with assms(1) obtain info where "observe (sloopMap st c) (EstimatedSize it) = Inr info"
    and "sloopMap st' = (sloopMap st)(c \<mapsto> info)"
    by (auto simp: histogramVisit_def Let_def split: if_splits sum.splits)
  then show ?thesis by simp
qed

lemma sum_abs_nonneg: "0 \<le> sum_list (map (\<lambda>e. \<bar>EstimatedSize e\<bar>) its)"
  by (induction its) simp_all

lemma histogramLoop_map:
  "histogramLoop G its st = Inr st' \<Longrightarrow>
   absTotal (sloopMap st c)
     + sum_list (map (\<lambda>e. \<bar>EstimatedSize e\<bar>) (filter (ofCategory G c) its)) < 2 ^ 63 \<Longrightarrow>
     sloopMap st' c = spec_stats (sloopMap st c) (map EstimatedSize (filter (ofCategory G c) its))"
proof (induction its arbitrary: st)
  case Nil
  then show ?case by simp
next
  case (Cons it its)
  from Cons.prems(1) obtain st1 where v: "histogramVisit G it st = Inr st1"
    and l: "histogramLoop G its st1 = Inr st'"
    by (auto split: sum.splits)
  let ?rest = "sum_list (map (\<lambda>e. \<bar>EstimatedSize e\<bar>) (filter (ofCategory G c) its))"
  show ?case
  proof (cases "ofCategory G c it")
    case True
    from histogramVisit_map_same [OF v True] obtain info
      where o: "observe (sloopMap st c) (EstimatedSize it) = Inr info"
        and m: "sloopMap st1 c = Some info"
      by blast
    from True Cons.prems(2)
    have s: "absTotal (sloopMap st c) + \<bar>EstimatedSize it\<bar> + ?rest < 2 ^ 63"
      by simp
    with sum_abs_nonneg [of "filter (ofCategory G c) its"]
    have "absTotal (sloopMap st c) + \<bar>EstimatedSize it\<bar> < 2 ^ 63"
      by linarith
    note ob = observe_bounded [OF o this]
    from ob have i: "info = spec_stats_step (sloopMap st c) (EstimatedSize it)"
      by (rule conjunct1)
    from ob have a: "absTotal (Some info) \<le> absTotal (sloopMap st c) + \<bar>EstimatedSize it\<bar>"
      by (rule conjunct2)
    from a s m have "absTotal (sloopMap st1 c) + ?rest < 2 ^ 63"
      by simp
    from Cons.IH [OF l this] True m i show ?thesis
      by simp
  next
    case False
    from histogramVisit_map_other [OF v False] Cons.prems(2) False
    have "absTotal (sloopMap st1 c) + ?rest < 2 ^ 63"
      by simp
    from Cons.IH [OF l this] False histogramVisit_map_other [OF v False] show ?thesis
      by simp
  qed
qed

subsection \<open>Keys without a category\<close>

lemma histogramVisit_uncategorized:
  "uncategorized G it \<Longrightarrow>
     histogramVisit G it st = Inl (FailedToParseKey (projl (G it)) (Key it))"
  by (cases "G it") (auto simp: uncategorized_def classify_def histogramVisit_def Let_def split: if_splits)

lemma histogramVisit_categorized:
  assumes "\<not> uncategorized G it" and "counts_positive (sloopMap st)"
  shows "\<exists>st'. histogramVisit G it st = Inr st' \<and> counts_positive (sloopMap st')"
proof (cases "HasPrefix (Key it) ''!badger''")
  case True
  then obtain st' where v: "histogramVisit G it st = Inr st'"
    by (simp add: histogramVisit_def Let_def)
  with True have "sloopMap st' = sloopMap st"
    by (auto simp: histogramVisit_def countInternal_def Let_def split: if_splits)
  with v assms(2) show ?thesis by simp
next
  case False
  with assms(1) obtain k where k: "G it = Inr k"
    by (cases "G it") (auto simp: uncategorized_def classify_def)
  have p: "\<And>i. sloopMap st k = Some i \<Longrightarrow> 0 < TotalKeys i"
    using assms(2) by (simp add: counts_positive_def)
  from observe_positive [of "sloopMap st k" "EstimatedSize it", OF p] obtain info
    where o: "observe (sloopMap st k) (EstimatedSize it) = Inr info"
      and t: "0 < TotalKeys info"
    by blast
  from False k o obtain st' where v: "histogramVisit G it st = Inr st'"
    and m: "sloopMap st' = (sloopMap st)(k \<mapsto> info)"
    by (cases "IsDeletedOrExpired it") (simp_all add: histogramVisit_def Let_def)
  from m t assms(2) have "counts_positive (sloopMap st')"
    by (auto simp: counts_positive_def)
  with v show ?thesis by blast
qed

lemma histogramLoop_aborts:
  "counts_positive (sloopMap st) \<Longrightarrow> find (uncategorized G) its = Some x \<Longrightarrow>
     histogramLoop G its st = Inl (FailedToParseKey (projl (G x)) (Key x))"
proof (induction its arbitrary: st)
  case Nil
  then show ?case by simp
next
  case (Cons it its)
  show ?case
  proof (cases "uncategorized G it")
    case True
    with Cons.prems have "x = it" by simp
    with True show ?thesis
      by (simp add: histogramVisit_uncategorized)
  next
    case False
    from histogramVisit_categorized [OF False Cons.prems(1)] obtain st1
      where v: "histogramVisit G it st = Inr st1" and c: "counts_positive (sloopMap st1)"
      by blast
    from False Cons.prems have "find (uncategorized G) its = Some x" by simp
    from Cons.IH [OF c this] v show ?thesis by simp
  qed
qed

lemma histogramLoop_completes:
  "counts_positive (sloopMap st) \<Longrightarrow> find (uncategorized G) its = None \<Longrightarrow>
     \<exists>st'. histogramLoop G its st = Inr st'"
proof (induction its arbitrary: st)
  case Nil
  then show ?case by simp
next
  case (Cons it its)
  from Cons.prems have n: "\<not> uncategorized G it" and r: "find (uncategorized G) its = None"
    by (auto split: if_splits)
  from histogramVisit_categorized [OF n Cons.prems(1)] obtain st1
    where v: "histogramVisit G it st = Inr st1" and c: "counts_positive (sloopMap st1)"
    by blast
  from Cons.IH [OF c r] v show ?case by simp
qed

lemma counts_positive_init: "counts_positive (sloopMap hist_init)"
  by (simp add: counts_positive_def hist_init_def)

text \<open>The handler renders a histogram whenever every visited domain key has a category:
  the division never panics.\<close>

lemma histogramHandler_total:
  assumes "find (uncategorized G) (histVisited prefix db) = None"
  shows "\<exists>r. histogramHandler G db prefix = HistRendered r"
proof (cases "prefix = []")
  case True
  then show ?thesis by (simp add: histogramHandler_def)
next
  case False
  from histogramLoop_completes [OF counts_positive_init assms] obtain st
    where "histogramLoop G (histVisited prefix db) hist_init = Inr st"
    by blast
  with False show ?thesis
    by (simp add: histogramHandler_def histVisited_def)
qed

text \<open>
  C4. In every rendered histogram, the statistics of a category are those the incremental
  rule gives on the sizes of the visited domain entries of that category, in the order of
  the visit: min = max = total = average = size and count = 1 at the first one; then
  count + 1, total + size, average = total / count in integer division, min and max
  changed only when the size is beyond them. This holds whenever the sizes of the
  category, added up in absolute value, stay below \<open>2 ^ 63\<close>, so that no \<open>int64\<close> total
  wraps around. For the sizes 10, 20, 30, 40, 50 the rule gives min 10, max 50, count 5,
  total 150, average 30, and so does the handler on the scenario store.
\<close>

theorem category_stats_incremental:
  assumes "histogramHandler G db prefix = HistRendered r"
    and "sum_list (map (\<lambda>e. \<bar>EstimatedSize e\<bar>)
           (filter (ofCategory G c) (histVisited prefix db))) < 2 ^ 63"
  shows "hHistogramMap r c =
     spec_stats None (map EstimatedSize (filter (ofCategory G c) (histVisited prefix db)))"
proof -
  from histogramHandler_rendered [OF assms(1)] obtain st
    where l: "histogramLoop G (histVisited prefix db) hist_init = Inr st"
      and r: "r = hist_result st"
    by blast
  from assms(2) have "absTotal (sloopMap hist_init c)
      + sum_list (map (\<lambda>e. \<bar>EstimatedSize e\<bar>)
          (filter (ofCategory G c) (histVisited prefix db))) < 2 ^ 63"
    by (simp add: hist_init_def absTotal_def)
  from histogramLoop_map [OF l this] r show ?thesis
    by (simp add: hist_result_def hist_init_def)
qed

theorem category_stats_incremental_witness:
  "histogramHandler pathCategory scenario_store ''*'' = HistRendered scenario_histogram \<and>
   map EstimatedSize (filter (ofCategory pathCategory ''/A'') (histVisited ''*'' scenario_store))
     = [10, 20, 30, 40, 50] \<and>
   sum_list (map (\<lambda>e. \<bar>EstimatedSize e\<bar>)
     (filter (ofCategory pathCategory ''/A'') (histVisited ''*'' scenario_store))) = 150 \<and>
   spec_stats None [10, 20, 30, 40, 50]
     = Some \<lparr>MinimumSize = 10, MaximumSize = 50, TotalKeys = 5, TotalSize = 150,
              AverageSize = 30\<rparr> \<and>
   hHistogramMap scenario_histogram ''/A'' = spec_stats None [10, 20, 30, 40, 50]"
proof -
  have f: "filter (ofCategory pathCategory ''/A'') (histVisited ''*'' scenario_store)
     = [entry ''/A/1'' 10, entry ''/A/2'' 20, entry ''/A/3'' 30, entry ''/A/4'' 40,
        entry ''/A/5'' 50]"
    by (simp add: histVisited_def iterate_def HasPrefix_def scenario_store_def entry_def
        ofCategory_def classify_def pathCategory_def)
  have s: "map EstimatedSize
      (filter (ofCategory pathCategory ''/A'') (histVisited ''*'' scenario_store))
     = [10, 20, 30, 40, 50]"
    by (simp add: f) (simp add: entry_def)
  have b: "sum_list (map (\<lambda>e. \<bar>EstimatedSize e\<bar>)
      (filter (ofCategory pathCategory ''/A'') (histVisited ''*'' scenario_store))) < 2 ^ 63"
    by (simp add: f) (simp add: entry_def)
  have e: "spec_stats None [10, 20, 30, 40, 50]
     = Some \<lparr>MinimumSize = 10, MaximumSize = 50, TotalKeys = 5, TotalSize = 150,
              AverageSize = 30\<rparr>"
    by (simp add: spec_stats_step_def signed_divide_int_def)
  have t: "sum_list (map (\<lambda>e. \<bar>EstimatedSize e\<bar>)
      (filter (ofCategory pathCategory ''/A'') (histVisited ''*'' scenario_store))) = 150"
    by (simp add: f) (simp add: entry_def)
  from category_stats_incremental [OF scenario_run b] s e t scenario_run
  show ?thesis by simp
qed

text \<open>
  C5. If a visited domain entry has no category, the handler renders no histogram: it
  stops at the first such entry and reports the error of the categorizer wrapped with the
  raw key of that entry.
\<close>

theorem categorization_failure_aborts:
  assumes "e \<in> set (histVisited prefix db)"
    and "classify (Key e) = DomainKey"
    and "G e = Inl err"
  shows "\<exists>x err'. find (uncategorized G) (histVisited prefix db) = Some x \<and>
           classify (Key x) = DomainKey \<and> G x = Inl err' \<and>
           histogramHandler G db prefix =
             HistFailed (WebError (FailedToParseKey err' (Key x)) ''Could not get histogram'')"
proof -
  from assms have "uncategorized G e"
    by (simp add: uncategorized_def)
  with assms(1) obtain x where f: "find (uncategorized G) (histVisited prefix db) = Some x"
    by (cases "find (uncategorized G) (histVisited prefix db)") (auto simp: find_None_iff)
  then have u: "uncategorized G x"
    by (auto simp: find_Some_iff)
  then obtain err' where g: "G x = Inl err'" and d: "classify (Key x) = DomainKey"
    by (cases "G x") (auto simp: uncategorized_def)
  from assms(1) have p: "prefix \<noteq> []"
    by (auto simp: histVisited_def)
  from histogramLoop_aborts [OF counts_positive_init f] g
  have "histogramLoop G (histVisited prefix db) hist_init = Inl (FailedToParseKey err' (Key x))"
    by simp
  with p have "histogramHandler G db prefix =
      HistFailed (WebError (FailedToParseKey err' (Key x)) ''Could not get histogram'')"
    by (simp add: histogramHandler_def histVisited_def)
  with f g d show ?thesis by blast
qed

theorem categorization_failure_aborts_witness:
  "entry ''corrupt'' 4 \<in> set (histVisited ''*'' corrupt_store) \<and>
   classify (Key (entry ''corrupt'' 4)) = DomainKey \<and>
   pathCategory (entry ''corrupt'' 4) = Inl ''not a sloop key'' \<and>
   histogramHandler pathCategory corrupt_store ''*'' =
     HistFailed (WebError (FailedToParseKey ''not a sloop key'' ''corrupt'')
       ''Could not get histogram'')"
proof -
  have a: "entry ''corrupt'' 4 \<in> set (histVisited ''*'' corrupt_store)"
    by (simp add: histVisited_def iterate_def HasPrefix_def corrupt_store_def)
  have b: "classify (Key (entry ''corrupt'' 4)) = DomainKey"
    by (simp add: entry_def classify_def HasPrefix_def)
  have c: "pathCategory (entry ''corrupt'' 4) = Inl ''not a sloop key''"
    by (simp add: entry_def pathCategory_def HasPrefix_def)
  have f: "find (uncategorized pathCategory) (histVisited ''*'' corrupt_store)
      = Some (entry ''corrupt'' 4)"
    by (simp add: histVisited_def iterate_def HasPrefix_def corrupt_store_def entry_def
        uncategorized_def classify_def pathCategory_def)
  from categorization_failure_aborts [where G = pathCategory, OF a b c] f c a b show ?thesis
    by (auto simp: entry_def)
qed

subsection \<open>The prefix parameter\<close>

text \<open>
  C8. With an empty \<open>prefix\<close> parameter the handler visits nothing and renders the
  empty histogram, without an error. With \<open>*\<close> it runs the loop over every entry of the
  store.
\<close>

theorem histogram_prefix_opt_in:
  "histVisited [] db = [] \<and>
   histogramHandler G db [] = HistRendered histogram_zero \<and>
   histVisited ''*'' db = db \<and>
   histogramHandler G db ''*'' =
     (case histogramLoop G db hist_init of
        Inl (FailedToParseKey err k) \<Rightarrow>
          HistFailed (WebError (FailedToParseKey err k) ''Could not get histogram'')
      | Inl (HistPanic p) \<Rightarrow> HistCrashed p
      | Inr st \<Rightarrow> HistRendered (hist_result st))"
  by (simp add: histVisited_def histogramHandler_def iterate_def HasPrefix_def
      split: sum.splits hist_failure.splits)

theorem histogram_prefix_opt_in_witness:
  "histVisited [] scenario_store = [] \<and>
   histogramHandler pathCategory scenario_store [] = HistRendered histogram_zero \<and>
   histVisited ''*'' scenario_store = scenario_store \<and>
   histogramHandler pathCategory scenario_store ''*'' = HistRendered scenario_histogram"
  using histogram_prefix_opt_in [of scenario_store pathCategory] scenario_run
  by simp

section \<open>The single-key resolver\<close>

text \<open>
  C9. For every raw key, the closure of the view-key handler calls the validators in the
  order watch, resource-summary, event-count, watch-activity, stops at the first that
  succeeds and calls \<open>Get\<close> of that table with the transaction of its own \<open>View\<close>; when
  none succeeds it returns the invalid-key error and calls no \<open>Get\<close>.
\<close>

theorem viewKey_probes_in_registry_order:
  "viewKey Validate GetValue txn key = resolveKey_spec Validate GetValue txn key"
  by (simp add: viewKey_def resolveKey_spec_def registry_def)

theorem viewKey_probes_in_registry_order_witness:
  "viewKey prefixValidate echoGet 7 ''/eventcount/x''
     = ([ValidateKey WatchTable ''/eventcount/x'', ValidateKey ResourceSummaryTable ''/eventcount/x'',
         ValidateKey EventCountTable ''/eventcount/x'', Get EventCountTable 7 ''/eventcount/x''],
        Inr (EventCountTable, ''value of /eventcount/x'')) \<and>
   viewKey prefixValidate echoGet 7 ''nokey''
     = ([ValidateKey WatchTable ''nokey'', ValidateKey ResourceSummaryTable ''nokey'',
         ValidateKey EventCountTable ''nokey'', ValidateKey WatchActivityTable ''nokey''],
        Inl (InvalidKey ''nokey''))"
  using viewKey_probes_in_registry_order [of prefixValidate echoGet 7 "''/eventcount/x''"]
    viewKey_probes_in_registry_order [of prefixValidate echoGet 7 "''nokey''"]
  by (simp add: resolveKey_spec_def registry_def prefixValidate_def echoGet_def HasPrefix_def)

section \<open>Listing keys\<close>

subsection \<open>The partition search\<close>

lemma partitionSearch_concat:
  "partitionSearch G maxR lookB keySearch ts ks
     = ks @ concat (map (partitionKeys G maxR lookB keySearch) ts)"
  by (induction ts arbitrary: ks) simp_all

text \<open>
  C10. Outside regex mode the handler reports no error and renders the keys the tables
  returned, one table after the other; the total size, the number of keys searched and
  the number of keys matched are all the number of keys returned.
\<close>

theorem partitioned_counts_are_key_count:
  assumes "searchOption req \<noteq> ''regex''"
  shows "\<exists>d. listKeysHandler Compile MatchString G db req
              = \<lparr>webErrors = [], outcome = ListRendered d\<rparr> \<and>
           Keys d = concat (map (partitionKeys G (maxRows req) (lookBack req) (urlmatch req))
                      (tablesToSearch (table req))) \<and>
           kTotalSize d = int (length (Keys d)) \<and>
           kTotalKeys d = int (length (Keys d)) \<and>
           KeysMatched d = int (length (Keys d))"
  using assms
  by (simp add: listKeysHandler_def Let_def listResult_def scan_init_def partitionSearch_concat)

theorem partitioned_counts_are_key_count_witness:
  "listKeysHandler literalCompile literalMatch somePartitionKeys scenario_store
     \<lparr>table = ''all'', maxRows = 1000, searchOption = [], keymatch = [], lookBack = 336,
      urlmatch = []\<rparr>
   = \<lparr>webErrors = [],
      outcome = ListRendered \<lparr>Keys = [''/watch/a'', ''/watch/b'', ''/eventcount/c''],
        kTotalKeys = 3, kTotalSize = 3, KeysMatched = 3\<rparr>\<rparr>"
  using partitioned_counts_are_key_count [of
      "\<lparr>table = ''all'', maxRows = 1000, searchOption = [], keymatch = [], lookBack = 336,
        urlmatch = []\<rparr>" literalCompile literalMatch somePartitionKeys scenario_store]
  by (auto simp: tablesToSearch_def partitionKeys_def somePartitionKeys_def)

subsection \<open>The regex search\<close>

lemma matching_Cons:
  "matching M re (e # es) = (if M re (Key e) then e # matching M re es else matching M re es)"
  by (simp add: matching_def)

text \<open>With a compiled pattern the scan never panics.\<close>

lemma scanTable_compiled: "\<exists>st'. scanTable (Some re) M maxR its st = Completed st'"
  by (induction its arbitrary: st) (simp_all add: Let_def)

lemma scanTables_compiled: "\<exists>st'. scanTables (Some re) M maxR db ts st = Completed st'"
proof (induction ts arbitrary: st)
  case Nil
  then show ?case by simp
next
  case (Cons t ts)
  from scanTable_compiled [of re M maxR "iterate (keyPrefix t) db" st] obtain st1
    where "scanTable (Some re) M maxR (iterate (keyPrefix t) db) st = Completed st1"
    by blast
  with Cons.IH [of st1] show ?case by simp
qed

text \<open>A scan never matches more keys than it visits.\<close>

lemma scanTable_matched_le_scanned:
  "scanTable rx M maxR its st = Completed st' \<Longrightarrow>
     count st' - count st \<le> totalCount st' - totalCount st"
proof (induction its arbitrary: st)
  case Nil
  then show ?case by simp
next
  case (Cons it its)
  show ?case
  proof (cases rx)
    case None
    with Cons.prems show ?thesis by (simp add: Let_def)
  next
    case (Some re)
    show ?thesis
    proof (cases "M re (Key it)")
      case True
      note m = this
      show ?thesis
      proof (cases "count st + 1 \<ge> maxR")
        case True
        with Cons.prems Some m show ?thesis by (auto simp: Let_def)
      next
        case False
        with Cons.prems Some m
        have "scanTable rx M maxR its
                (st\<lparr>totalCount := totalCount st + 1, keys := keys st @ [Key it],
                    count := count st + 1,
                    totalSize := int64 (totalSize st + EstimatedSize it)\<rparr>)
              = Completed st'"
          by (simp add: Let_def)
        from Cons.IH [OF this] show ?thesis by simp
      qed
    next
      case False
      with Cons.prems Some
      have "scanTable rx M maxR its (st\<lparr>totalCount := totalCount st + 1\<rparr>) = Completed st'"
        by (simp add: Let_def)
      from Cons.IH [OF this] show ?thesis by simp
    qed
  qed
qed

lemma scanTables_matched_le_scanned:
  "scanTables rx M maxR db ts st = Completed st' \<Longrightarrow>
     count st' - count st \<le> totalCount st' - totalCount st"
proof (induction ts arbitrary: st)
  case Nil
  then show ?case by simp
next
  case (Cons t ts)
  then obtain st1
    where a: "scanTable rx M maxR (iterate (keyPrefix t) db) st = Completed st1"
      and b: "scanTables rx M maxR db ts st1 = Completed st'"
    by (auto split: scan_result.splits)
  from scanTable_matched_le_scanned [OF a] Cons.IH [OF b] show ?case by simp
qed

text \<open>A scan that stays below the row cap visits every item and keeps every match.\<close>

lemma scanTable_uncapped:
  "count st + int (length (matching M re its)) < maxR \<Longrightarrow>
     scanTable (Some re) M maxR its st =
       Completed \<lparr>keys = keys st @ map Key (matching M re its),
         count = count st + int (length (matching M re its)),
         totalCount = totalCount st + int (length its),
         totalSize = addSizes (totalSize st) (matching M re its)\<rparr>"
proof (induction its arbitrary: st)
  case Nil
  then show ?case by (cases st) (simp add: matching_def)
next
  case (Cons it its)
  show ?case
  proof (cases "M re (Key it)")
    case True
    let ?st = "st\<lparr>totalCount := totalCount st + 1, keys := keys st @ [Key it],
                    count := count st + 1,
                    totalSize := int64 (totalSize st + EstimatedSize it)\<rparr>"
    from True Cons.prems have "count ?st + int (length (matching M re its)) < maxR"
      by (simp add: matching_Cons)
    from Cons.IH [OF this] True Cons.prems show ?thesis
      by (simp add: Let_def matching_Cons)
  next
    case False
    let ?st = "st\<lparr>totalCount := totalCount st + 1\<rparr>"
    from False Cons.prems have "count ?st + int (length (matching M re its)) < maxR"
      by (simp add: matching_Cons)
    from Cons.IH [OF this] False show ?thesis
      by (simp add: Let_def matching_Cons)
  qed
qed

text \<open>From a total in range, the sizes added one by one with wrap-around give the
  wrapped sum.\<close>

lemma addSizes_int64:
  "int64 acc = acc \<Longrightarrow> addSizes acc es = int64 (acc + sum_list (map EstimatedSize es))"
proof (induction es arbitrary: acc)
  case Nil
  then show ?case by simp
next
  case (Cons e es)
  have "addSizes (int64 (acc + EstimatedSize e)) es
      = int64 (int64 (acc + EstimatedSize e) + sum_list (map EstimatedSize es))"
    by (rule Cons.IH) (rule int64_idem)
  then show ?case
    by (simp add: int64_add_left add.assoc)
qed

lemma iterate_Nil: "iterate [] db = db"
  by (simp add: iterate_def HasPrefix_def)

text \<open>After a failed \<open>regexp.Compile\<close> the handler reports the error and scans all the
  same: the first item of the first table is counted, and matching it panics.\<close>

lemma invalid_regex_scans:
  assumes "searchOption req = ''regex''"
    and "Compile (keymatch req) = Inl err"
    and "iterate (keyPrefix (hd (tablesToSearch (table req)))) db = it # its"
  shows "listKeysHandler Compile M G db req =
     \<lparr>webErrors = [WebError err ''Invalid regex''],
      outcome = ListCrashed NilPointerDereference (scan_init\<lparr>totalCount := 1\<rparr>)\<rparr>"
proof -
  obtain t ts where t: "tablesToSearch (table req) = t # ts"
    by (cases "tablesToSearch (table req)") (auto simp: tablesToSearch_def split: if_splits)
  with assms(3) have "scanTables None M (maxRows req) db (tablesToSearch (table req)) scan_init
      = ScanPanicked NilPointerDereference (scan_init\<lparr>totalCount := 1\<rparr>)"
    by (simp add: Let_def scan_init_def)
  with assms(1,2) show ?thesis
    by (simp add: listKeysHandler_def Let_def scanOutcome_def)
qed

text \<open>
  C1. The claim is that an unparsable pattern is reported before any scanning begins,
  with no key scanned and no crash. Evaluated on a store with one watch key, the
  pattern \<open>(\<close> and the table \<open>watch\<close>, the handler reports "Invalid regex", then scans one
  key and panics on the nil pattern.
\<close>

theorem invalid_regex_is_scanned_and_panics:
  "listKeysHandler literalCompile literalMatch somePartitionKeys watch_store
     \<lparr>table = ''watch'', maxRows = 1000, searchOption = ''regex'', keymatch = ''('',
      lookBack = 0, urlmatch = []\<rparr>
   = \<lparr>webErrors = [WebError ''error parsing regexp'' ''Invalid regex''],
      outcome = ListCrashed NilPointerDereference
        \<lparr>keys = [], count = 0, totalCount = 1, totalSize = 0\<rparr>\<rparr>"
  by (simp add: listKeysHandler_def literalCompile_def tablesToSearch_def keyPrefix_def
      iterate_def HasPrefix_def watch_store_def entry_def scan_init_def scanOutcome_def
      int64_numeral_id)

text \<open>
  C2. The claim is that the matched count never exceeds the row cap, and that a cap of
  zero gives an empty result. Evaluated with the cap 1 on the table \<open>all\<close> and a store with
  one event-count key and one watch key, the handler returns two keys; with the cap 0 on
  the table \<open>watch\<close> it returns one key.
\<close>

theorem row_cap_is_exceeded:
  "listKeysHandler literalCompile literalMatch somePartitionKeys two_table_store
     \<lparr>table = ''all'', maxRows = 1, searchOption = ''regex'', keymatch = [],
      lookBack = 0, urlmatch = []\<rparr>
   = \<lparr>webErrors = [],
      outcome = ListRendered \<lparr>Keys = [''/watch/a'', ''/eventcount/b''], kTotalKeys = 2,
        kTotalSize = 12, KeysMatched = 2\<rparr>\<rparr> \<and>
   listKeysHandler literalCompile literalMatch somePartitionKeys watch_store
     \<lparr>table = ''watch'', maxRows = 0, searchOption = ''regex'', keymatch = [],
      lookBack = 0, urlmatch = []\<rparr>
   = \<lparr>webErrors = [],
      outcome = ListRendered \<lparr>Keys = [''/watch/a''], kTotalKeys = 1, kTotalSize = 7,
        KeysMatched = 1\<rparr>\<rparr>"
  by (simp add: listKeysHandler_def literalCompile_def tablesToSearch_def keyPrefix_def
      iterate_def HasPrefix_def watch_store_def two_table_store_def entry_def scan_init_def
      scanOutcome_def listResult_def int64_numeral_id)


text \<open>
  C6, as stated: with the table \<open>internal\<close> only keys with the prefix \<open>!badger\<close> can be in
  the result. The handler returns the domain key \<open>/watch/a\<close> for the pattern \<open>watch\<close>.
\<close>

theorem internal_scan_returns_domain_key:
  "listKeysHandler literalCompile literalMatch somePartitionKeys mixed_store
     \<lparr>table = ''internal'', maxRows = 1000, searchOption = ''regex'', keymatch = ''watch'',
      lookBack = 0, urlmatch = []\<rparr>
   = \<lparr>webErrors = [],
      outcome = ListRendered \<lparr>Keys = [''/watch/a''], kTotalKeys = 3, kTotalSize = 7,
        KeysMatched = 1\<rparr>\<rparr> \<and>
   \<not> HasPrefix ''/watch/a'' ''!badger''"
  by (simp add: listKeysHandler_def literalCompile_def tablesToSearch_def keyPrefix_def
      iterate_def HasPrefix_def mixed_store_def entry_def scan_init_def
      scanOutcome_def listResult_def int64_numeral_id)

text \<open>
  C6, amended. In regex mode with the table \<open>internal\<close> and a pattern that compiles, the
  scan uses no key prefix; and whenever fewer keys of the store match the pattern than
  the row cap, the scan visits every entry of the store, internal or domain, tests each
  key against the pattern, and the result is exactly the matching keys of the whole
  store, in the store's order, domain keys included.
\<close>

theorem internal_scan_tests_every_key:
  assumes "searchOption req = ''regex''"
    and "table req = ''internal''"
    and "Compile (keymatch req) = Inr re"
    and "int (length (matching M re db)) < maxRows req"
  shows "keyPrefix (table req) = [] \<and>
         listKeysHandler Compile M G db req =
           \<lparr>webErrors = [],
            outcome = ListRendered \<lparr>Keys = map Key (matching M re db),
              kTotalKeys = int (length db),
              kTotalSize = int64 (sum_list (map EstimatedSize (matching M re db))),
              KeysMatched = int (length (matching M re db))\<rparr>\<rparr>"
proof -
  have p: "keyPrefix (table req) = []"
    using assms(2) by (simp add: keyPrefix_def)
  have s: "scanTables (Some re) M (maxRows req) db (tablesToSearch (table req)) scan_init
      = scanTable (Some re) M (maxRows req) db scan_init"
    using assms(2)
    by (simp add: tablesToSearch_def keyPrefix_def iterate_Nil split: scan_result.splits)
  have h: "listKeysHandler Compile M G db req =
      \<lparr>webErrors = [],
       outcome = scanOutcome (scanTable (Some re) M (maxRows req) db scan_init)\<rparr>"
    using assms(1,3)
    by (simp add: listKeysHandler_def Let_def s)
  from assms(4) have "count scan_init + int (length (matching M re db)) < maxRows req"
    by (simp add: scan_init_def)
  from scanTable_uncapped [OF this]
  have "scanTable (Some re) M (maxRows req) db scan_init =
      Completed \<lparr>keys = map Key (matching M re db),
        count = int (length (matching M re db)),
        totalCount = int (length db),
        totalSize = addSizes 0 (matching M re db)\<rparr>"
    by (simp add: scan_init_def)
  moreover have "addSizes 0 (matching M re db)
      = int64 (sum_list (map EstimatedSize (matching M re db)))"
    using addSizes_int64 [of 0 "matching M re db"] by (simp add: int64_def)
  ultimately show ?thesis
    using p h by (simp add: scanOutcome_def listResult_def)
qed

theorem internal_scan_tests_every_key_witness:
  "listKeysHandler literalCompile literalMatch somePartitionKeys mixed_store
     \<lparr>table = ''internal'', maxRows = 1000, searchOption = ''regex'', keymatch = [],
      lookBack = 0, urlmatch = []\<rparr>
   = \<lparr>webErrors = [],
      outcome = ListRendered \<lparr>Keys = [''!badger!head'', ''/foo/x'', ''/watch/a''],
        kTotalKeys = 3, kTotalSize = 14, KeysMatched = 3\<rparr>\<rparr>"
proof -
  let ?req = "\<lparr>table = ''internal'', maxRows = 1000, searchOption = ''regex'', keymatch = [],
      lookBack = 0, urlmatch = []\<rparr>"
  have a: "searchOption ?req = ''regex''" by simp
  have b: "table ?req = ''internal''" by simp
  have c: "literalCompile (keymatch ?req) = Inr []" by (simp add: literalCompile_def)
  have m: "matching literalMatch [] mixed_store = mixed_store"
    by (simp add: matching_def mixed_store_def entry_def HasPrefix_def)
  have l: "int (length (matching literalMatch [] mixed_store)) < maxRows ?req"
    by (simp add: m) (simp add: mixed_store_def)
  note t = internal_scan_tests_every_key [where Compile = literalCompile and M = literalMatch
      and G = somePartitionKeys and db = mixed_store, OF a b c l]
  from t [THEN conjunct2]
  have "listKeysHandler literalCompile literalMatch somePartitionKeys mixed_store ?req =
      \<lparr>webErrors = [],
       outcome = ListRendered \<lparr>Keys = map Key mixed_store,
         kTotalKeys = int (length mixed_store),
         kTotalSize = int64 (sum_list (map EstimatedSize mixed_store)),
         KeysMatched = int (length mixed_store)\<rparr>\<rparr>"
    by (simp add: m)
  also have "\<dots> = \<lparr>webErrors = [],
      outcome = ListRendered \<lparr>Keys = [''!badger!head'', ''/foo/x'', ''/watch/a''],
        kTotalKeys = 3, kTotalSize = 14, KeysMatched = 3\<rparr>\<rparr>"
    by (simp add: mixed_store_def entry_def int64_numeral_id)
  finally show ?thesis .
qed

text \<open>
  C7, as stated: a table selector that is none of the six names gives an unknown-table
  error. For the selector \<open>foo\<close> the handler reports no error: it renders the empty result
  in partitioned mode and the keys under \<open>/foo/\<close> in regex mode.
\<close>

theorem unknown_table_succeeds:
  "listKeysHandler literalCompile literalMatch somePartitionKeys mixed_store
     \<lparr>table = ''foo'', maxRows = 1000, searchOption = [], keymatch = [],
      lookBack = 336, urlmatch = []\<rparr>
   = \<lparr>webErrors = [],
      outcome = ListRendered \<lparr>Keys = [], kTotalKeys = 0, kTotalSize = 0, KeysMatched = 0\<rparr>\<rparr> \<and>
   listKeysHandler literalCompile literalMatch somePartitionKeys mixed_store
     \<lparr>table = ''foo'', maxRows = 1000, searchOption = ''regex'', keymatch = [],
      lookBack = 0, urlmatch = []\<rparr>
   = \<lparr>webErrors = [],
      outcome = ListRendered \<lparr>Keys = [''/foo/x''], kTotalKeys = 1, kTotalSize = 4,
        KeysMatched = 1\<rparr>\<rparr>"
  by (simp add: listKeysHandler_def literalCompile_def tablesToSearch_def keyPrefix_def
      iterate_def HasPrefix_def mixed_store_def entry_def scan_init_def
      scanOutcome_def listResult_def partitionKeys_def int64_numeral_id)

text \<open>
  C7, amended. For every table selector that is none of the six names the handler
  reports no error and renders a result: the empty one in partitioned mode, and in regex
  mode (with a pattern that compiles) the result of the scan of the keys with the prefix
  \<open>/selector/\<close>.
\<close>

theorem unknown_table_is_searched_by_name:
  assumes "table req \<notin> set [''watch'', ''eventcount'', ''ressum'', ''watchactivity'',
             ''all'', ''internal'']"
    and "searchOption req = ''regex'' \<longrightarrow> Compile (keymatch req) = Inr re"
  shows "listKeysHandler Compile M G db req =
           \<lparr>webErrors = [],
            outcome =
              (if searchOption req = ''regex''
               then scanOutcome (scanTable (Some re) M (maxRows req)
                      (iterate (''/'' @ table req @ ''/'') db) scan_init)
               else ListRendered
                      \<lparr>Keys = [], kTotalKeys = 0, kTotalSize = 0, KeysMatched = 0\<rparr>)\<rparr> \<and>
         (\<exists>d. outcome (listKeysHandler Compile M G db req) = ListRendered d)"
proof -
  from assms(1) have t: "tablesToSearch (table req) = [table req]"
    and k: "keyPrefix (table req) = ''/'' @ table req @ ''/''"
    and n: "partitionKeys G (maxRows req) (lookBack req) (urlmatch req) (table req) = []"
    by (simp_all add: tablesToSearch_def keyPrefix_def partitionKeys_def)
  have s: "scanTables (Some re) M (maxRows req) db (tablesToSearch (table req)) scan_init
      = scanTable (Some re) M (maxRows req) (iterate (''/'' @ table req @ ''/'') db) scan_init"
    by (simp add: t k split: scan_result.splits)
  have h: "listKeysHandler Compile M G db req =
           \<lparr>webErrors = [],
            outcome =
              (if searchOption req = ''regex''
               then scanOutcome (scanTable (Some re) M (maxRows req)
                      (iterate (''/'' @ table req @ ''/'') db) scan_init)
               else ListRendered
                      \<lparr>Keys = [], kTotalKeys = 0, kTotalSize = 0, KeysMatched = 0\<rparr>)\<rparr>"
  proof (cases "searchOption req = ''regex''")
    case True
    with assms(2) show ?thesis
      by (simp add: listKeysHandler_def Let_def s)
  next
    case False
    then show ?thesis
      by (simp add: listKeysHandler_def Let_def t n listResult_def scan_init_def)
  qed
  obtain st where "scanTable (Some re) M (maxRows req)
      (iterate (''/'' @ table req @ ''/'') db) scan_init = Completed st"
    using scanTable_compiled [of re M "maxRows req" "iterate (''/'' @ table req @ ''/'') db"
        scan_init]
    by blast
  with h show ?thesis
    by (simp add: scanOutcome_def)
qed

theorem unknown_table_is_searched_by_name_witness:
  "listKeysHandler literalCompile literalMatch somePartitionKeys mixed_store
     \<lparr>table = ''foo'', maxRows = 1000, searchOption = ''regex'', keymatch = [],
      lookBack = 0, urlmatch = []\<rparr>
   = \<lparr>webErrors = [],
      outcome = ListRendered \<lparr>Keys = [''/foo/x''], kTotalKeys = 1, kTotalSize = 4,
        KeysMatched = 1\<rparr>\<rparr>"
proof -
  let ?req = "\<lparr>table = ''foo'', maxRows = 1000, searchOption = ''regex'', keymatch = [],
      lookBack = 0, urlmatch = []\<rparr>"
  have a: "table ?req \<notin> set [''watch'', ''eventcount'', ''ressum'', ''watchactivity'',
             ''all'', ''internal'']"
    by simp
  have b: "searchOption ?req = ''regex'' \<longrightarrow> literalCompile (keymatch ?req) = Inr []"
    by (simp add: literalCompile_def)
  from unknown_table_is_searched_by_name [where Compile = literalCompile and M = literalMatch
      and G = somePartitionKeys and db = mixed_store, OF a b]
  show ?thesis
    by (simp add: iterate_def HasPrefix_def mixed_store_def entry_def scan_init_def
        scanOutcome_def listResult_def int64_numeral_id)
qed

end
